theory Spec2Isabelle
  imports Main "HOL-Library.Word"
begin

section \<open>vectormath2d: the function \<open>dot2d\<close>\<close>

text \<open>
  The repository's one function, \<^verbatim>\<open>src/vectormath2d/src/vectormath2d.cpp\<close>:
  \<^verbatim>\<open>
  std::string dot2d(int x1, int y1, int x2, int y2) {
      int result = x1 * x2 + y1 * y2;
      spdlog::info("Computed 2D dot product: {}", result);
      return fmt::format("({},{})\xC2\xB7({},{}) = {}", x1, y1, x2, y2, result);
  }
  \<close>
  (the middle dot of the format string is the two bytes C2 B7 of its UTF-8 encoding).
\<close>

subsection \<open>Machine integers\<close>

text \<open>
  A C++ \<^verbatim>\<open>int\<close> is a 32-bit two's complement value on the platforms the project
  builds for. Signed overflow is undefined in ISO C++; the model takes what the compiled
  arithmetic does, 32-bit multiplication and addition that wrap around, which is what
  \<open>*\<close> and \<open>+\<close> on \<open>32 word\<close> are. \<open>sint\<close> reads the signed value.
\<close>

type_synonym int32 = "32 word"

subsection \<open>The formatting library\<close>

text \<open>
  \<^verbatim>\<open>fmt::format\<close> belongs to the third-party fmt library, which is not part of the
  sources; the spec says of it only that it formats the result into a string. The model
  follows the library's documented behaviour and covers the fragment of its format language that
  \<open>dot2d\<close> uses: literal text, the escapes \<^verbatim>\<open>{{\<close> and \<^verbatim>\<open>}}\<close>, and the
  replacement field \<^verbatim>\<open>{}\<close>, which takes the next argument and renders an \<^verbatim>\<open>int\<close> in
  decimal, with a leading minus sign when it is negative. A malformed format string and
  a missing argument raise \<^verbatim>\<open>fmt::format_error\<close>. Replacement fields with an index or
  a format specification are outside the fragment and are reported as such.
\<close>

definition digit_char :: "int \<Rightarrow> char" where
  "digit_char d = char_of (48 + d)"

function dec_digits :: "int \<Rightarrow> string" where
  "dec_digits n =
     (if n < 10 then [digit_char n] else dec_digits (n div 10) @ [digit_char (n mod 10)])"
  by pat_completeness auto
termination
  by (relation "measure nat") auto

declare dec_digits.simps [simp del]

definition format_int :: "int \<Rightarrow> string" where
  "format_int i = (if i < 0 then CHR ''-'' # dec_digits (- i) else dec_digits i)"

datatype fmt_arg = ArgInt int32

fun format_arg :: "fmt_arg \<Rightarrow> string" where
  "format_arg (ArgInt w) = format_int (sint w)"

datatype fmt_error = FormatError string | OutsideFragment

fun prepend :: "string \<Rightarrow> fmt_error + string \<Rightarrow> fmt_error + string" where
  "prepend s (Inl e) = Inl e"
| "prepend s (Inr t) = Inr (s @ t)"

text \<open>
  Modelled from the spec: \<^verbatim>\<open>fmt::format(fmt, args...)\<close> of the fmt library (not under
  the sources), on the fragment described above. The format string is read left to
  right, and the first error is the one raised.
\<close>

fun fmt_format :: "string \<Rightarrow> fmt_arg list \<Rightarrow> fmt_error + string" where
  "fmt_format [] args = Inr []"
| "fmt_format [c] args =
     (if c = CHR ''{'' then Inl (FormatError ''invalid format string'')
      else if c = CHR ''}'' then Inl (FormatError ''unmatched } in format string'')
      else Inr [c])"
| "fmt_format (c # d # fs) args =
     (if c = CHR ''{'' then
        (if d = CHR ''{'' then prepend [c] (fmt_format fs args)
         else if d = CHR ''}'' then
           (case args of
              [] \<Rightarrow> Inl (FormatError ''argument not found'')
            | a # as \<Rightarrow> prepend (format_arg a) (fmt_format fs as))
         else Inl OutsideFragment)
      else if c = CHR ''}'' then
        (if d = CHR ''}'' then prepend [c] (fmt_format fs args)
         else Inl (FormatError ''unmatched } in format string''))
      else prepend [c] (fmt_format (d # fs) args))"

subsection \<open>The logging library\<close>

text \<open>
  \<^verbatim>\<open>spdlog::info\<close> belongs to the third-party spdlog library, which is not part of
  the sources. It logs to the process-wide default logger: when the
  logger's level admits \<^verbatim>\<open>info\<close>, the message is formatted and handed to the sink;
  an exception of the formatter is caught inside the library and the message is dropped.
  The state of the logger is its level and the messages its sink has received, in order.
  The sink's decoration of a message (time stamp, level name) is not part of the model.
\<close>

datatype level = Trace | Debug | Info | Warn | Err | Critical | Off

fun level_rank :: "level \<Rightarrow> nat" where
  "level_rank Trace = 0"
| "level_rank Debug = 1"
| "level_rank Info = 2"
| "level_rank Warn = 3"
| "level_rank Err = 4"
| "level_rank Critical = 5"
| "level_rank Off = 6"

record logger =
  log_level :: level
  sink :: "string list"

definition should_log :: "logger \<Rightarrow> level \<Rightarrow> bool" where
  "should_log lg lvl = (level_rank (log_level lg) \<le> level_rank lvl)"

text \<open>
  Modelled from the spec: \<^verbatim>\<open>spdlog::info(fmt, args...)\<close> of the spdlog library (not
  under the sources), on the default logger.
\<close>

definition spdlog_info :: "string \<Rightarrow> fmt_arg list \<Rightarrow> logger \<Rightarrow> logger" where
  "spdlog_info f args lg =
     (if should_log lg Info then
        (case fmt_format f args of
           Inl e \<Rightarrow> lg
         | Inr msg \<Rightarrow> lg\<lparr>sink := sink lg @ [msg]\<rparr>)
      else lg)"

subsection \<open>dot2d\<close>

text \<open>The local variable \<^verbatim>\<open>result\<close>: \<^verbatim>\<open>int result = x1 * x2 + y1 * y2;\<close>\<close>

definition dot2d_result :: "int32 \<Rightarrow> int32 \<Rightarrow> int32 \<Rightarrow> int32 \<Rightarrow> int32" where
  "dot2d_result x1 y1 x2 y2 = x1 * x2 + y1 * y2"

text \<open>
  The function takes the state of the default logger and returns the new one beside its
  own result, which is the string, or the exception \<^verbatim>\<open>fmt::format\<close> raised.
\<close>

definition dot2d ::
  "int32 \<Rightarrow> int32 \<Rightarrow> int32 \<Rightarrow> int32 \<Rightarrow> logger \<Rightarrow> (fmt_error + string) \<times> logger" where
  "dot2d x1 y1 x2 y2 lg =
     (let result = dot2d_result x1 y1 x2 y2;
          lg' = spdlog_info ''Computed 2D dot product: {}'' [ArgInt result] lg
      in (fmt_format (''({},{})'' @ [CHR 0xC2, CHR 0xB7] @ ''({},{}) = {}'')
            [ArgInt x1, ArgInt y1, ArgInt x2, ArgInt y2, ArgInt result],
          lg'))"

subsection \<open>Notions the properties are stated with\<close>

text \<open>
  The dot product of \<open>(x1, y1)\<close> and \<open>(x2, y2)\<close> over the integers, the signed
  32-bit range, and the reduction of an integer modulo \<open>2 ^ 32\<close> into that range.
\<close>

definition exact_dot :: "int32 \<Rightarrow> int32 \<Rightarrow> int32 \<Rightarrow> int32 \<Rightarrow> int" where
  "exact_dot x1 y1 x2 y2 = sint x1 * sint x2 + sint y1 * sint y2"

definition in_int32_range :: "int \<Rightarrow> bool" where
  "in_int32_range k = (- (2 ^ 31) \<le> k \<and> k < 2 ^ 31)"

definition wrap_int32 :: "int \<Rightarrow> int" where
  "wrap_int32 k = (k + 2 ^ 31) mod 2 ^ 32 - 2 ^ 31"

text \<open>
  Reading a decimal numeral back: the value of a string of digits, and of an optional
  minus sign followed by digits. \<open>format_int\<close> is a decimal rendering in the sense
  that \<open>parse_int\<close> inverts it (\<open>parse_int_format_int\<close> below).
\<close>

definition parse_dec :: "string \<Rightarrow> int" where
  "parse_dec s = foldl (\<lambda>a c. 10 * a + (of_char c - 48)) 0 s"

definition parse_int :: "string \<Rightarrow> int" where
  "parse_int s =
     (case s of
        [] \<Rightarrow> 0
      | c # cs \<Rightarrow> if c = CHR ''-'' then - parse_dec cs else parse_dec s)"

definition is_digit :: "char \<Rightarrow> bool" where
  "is_digit c = (48 \<le> (of_char c :: int) \<and> (of_char c :: int) \<le> 57)"

text \<open>
  What stands in a string after the first occurrence of a marker character: after
  \<open>=\<close> in the returned string, after \<open>:\<close> in the log message.
\<close>

definition after_marker :: "char \<Rightarrow> string \<Rightarrow> string" where
  "after_marker m s = drop 1 (dropWhile (\<lambda>c. c \<noteq> m) s)"

text \<open>
  The string \<^verbatim>\<open>({x1},{y1})\xC2\xB7({x2},{y2}) = {r}\<close> with every placeholder
  rendered in decimal.
\<close>

definition rendered :: "int32 \<Rightarrow> int32 \<Rightarrow> int32 \<Rightarrow> int32 \<Rightarrow> int32 \<Rightarrow> string" where
  "rendered x1 y1 x2 y2 r =
     ''('' @ format_int (sint x1) @ '','' @ format_int (sint y1) @ '')'' @
     [CHR 0xC2, CHR 0xB7] @
     ''('' @ format_int (sint x2) @ '','' @ format_int (sint y2) @ '') = '' @
     format_int (sint r)"

section \<open>Arithmetic of \<open>result\<close>\<close>

lemma wrap_int32_signed_take_bit: "wrap_int32 k = signed_take_bit 31 k"
  by (simp add: wrap_int32_def signed_take_bit_eq_take_bit_shift take_bit_eq_mod)

lemma sint_dot2d_result:
  "sint (dot2d_result x1 y1 x2 y2) = wrap_int32 (exact_dot x1 y1 x2 y2)"
  by (simp add: dot2d_result_def exact_dot_def wrap_int32_signed_take_bit
      sint_word_ariths signed_take_bit_add signed_take_bit_mult)

lemma wrap_int32_id_iff: "wrap_int32 k = k \<longleftrightarrow> in_int32_range k"
  by (simp add: wrap_int32_signed_take_bit in_int32_range_def
      signed_take_bit_int_eq_self_iff)

lemma wrap_int32_cong: "\<exists>q. wrap_int32 k = k + q * 2 ^ 32"
proof -
  have "(k + 2 ^ 31) mod 2 ^ 32 = (k + 2 ^ 31) - ((k + 2 ^ 31) div 2 ^ 32) * 2 ^ 32"
    by (simp add: minus_div_mult_eq_mod)
  then have "wrap_int32 k = k + (- ((k + 2 ^ 31) div 2 ^ 32)) * 2 ^ 32"
    by (simp add: wrap_int32_def)
  then show ?thesis by blast
qed

section \<open>Decimal rendering\<close>

lemma of_char_digit_char: "0 \<le> d \<Longrightarrow> d < 10 \<Longrightarrow> of_char (digit_char d) = 48 + d"
  by (simp add: digit_char_def of_char_of)

lemma is_digit_digit_char: "0 \<le> d \<Longrightarrow> d < 10 \<Longrightarrow> is_digit (digit_char d)"
  by (simp add: is_digit_def of_char_digit_char)

lemma dec_digits_not_Nil: "dec_digits n \<noteq> []"
  by (simp add: dec_digits.simps [of n])

lemma dec_digits_is_digit: "0 \<le> n \<Longrightarrow> c \<in> set (dec_digits n) \<Longrightarrow> is_digit c"
proof (induction n rule: dec_digits.induct)
  case (1 n)
  show ?case
  proof (cases "n < 10")
    case True
    with "1.prems" show ?thesis
      by (simp add: dec_digits.simps [of n] is_digit_digit_char)
  next
    case False
    with "1.prems" have "c \<in> set (dec_digits (n div 10)) \<or> c = digit_char (n mod 10)"
      by (auto simp: dec_digits.simps [of n])
    then show ?thesis
    proof
      assume "c \<in> set (dec_digits (n div 10))"
      with "1.IH" False "1.prems"(1) show ?thesis by simp
    next
      assume "c = digit_char (n mod 10)"
      then show ?thesis by (simp add: is_digit_digit_char)
    qed
  qed
qed

lemma parse_dec_snoc: "parse_dec (s @ [c]) = 10 * parse_dec s + (of_char c - 48)"
  by (simp add: parse_dec_def)

lemma parse_dec_dec_digits: "0 \<le> n \<Longrightarrow> parse_dec (dec_digits n) = n"
proof (induction n rule: dec_digits.induct)
  case (1 n)
  show ?case
  proof (cases "n < 10")
    case True
    with "1.prems" show ?thesis
      by (simp add: dec_digits.simps [of n] parse_dec_def of_char_digit_char)
  next
    case False
    with "1.IH" "1.prems" have "parse_dec (dec_digits (n div 10)) = n div 10"
      by simp
    with False show ?thesis
      by (simp add: dec_digits.simps [of n] parse_dec_snoc of_char_digit_char)
  qed
qed

lemma length_dec_digits: "0 \<le> n \<Longrightarrow> n < 10 ^ Suc k \<Longrightarrow> length (dec_digits n) \<le> Suc k"
proof (induction k arbitrary: n)
  case 0
  then show ?case by (simp add: dec_digits.simps [of n])
next
  case (Suc k)
  show ?case
  proof (cases "n < 10")
    case True
    then show ?thesis by (simp add: dec_digits.simps [of n])
  next
    case False
    from Suc.prems have "n div 10 < 10 ^ Suc k" by simp
    moreover from Suc.prems have "0 \<le> n div 10" by simp
    ultimately have "length (dec_digits (n div 10)) \<le> Suc k" by (rule Suc.IH [rotated])
    with False show ?thesis by (simp add: dec_digits.simps [of n])
  qed
qed

lemma length_format_int:
  assumes "- (2 ^ 31) \<le> i" and "i < 2 ^ 31"
  shows "length (format_int i) \<le> 11"
proof (cases "i < 0")
  case True
  with assms have "0 \<le> - i" and "- i < 10 ^ Suc 9" by simp_all
  then have "length (dec_digits (- i)) \<le> Suc 9" by (rule length_dec_digits)
  with True show ?thesis by (simp add: format_int_def)
next
  case False
  with assms have "0 \<le> i" and "i < 10 ^ Suc 9" by simp_all
  then have "length (dec_digits i) \<le> Suc 9" by (rule length_dec_digits)
  with False show ?thesis by (simp add: format_int_def)
qed

lemma length_format_arg: "length (format_arg a) \<le> 11"
proof (cases a)
  case (ArgInt w)
  have "- (2 ^ 31) \<le> sint w" using sint_ge [of w] by simp
  moreover have "sint w < 2 ^ 31" using sint_lt [of w] by simp
  ultimately show ?thesis using ArgInt by (simp add: length_format_int)
qed

lemma format_int_chars: "c \<in> set (format_int i) \<Longrightarrow> c = CHR ''-'' \<or> is_digit c"
  by (auto simp: format_int_def split: if_splits dest: dec_digits_is_digit [rotated])

lemma format_int_no_marker:
  "c \<in> set (format_int i) \<Longrightarrow> c \<noteq> CHR ''='' \<and> c \<noteq> CHR '':''"
  using format_int_chars [of c i] by (auto simp: is_digit_def)

text \<open>Reading the rendering back gives the number: the rendering is its decimal numeral.\<close>

lemma parse_int_format_int: "parse_int (format_int i) = i"
proof (cases "i < 0")
  case True
  then show ?thesis by (simp add: format_int_def parse_int_def parse_dec_dec_digits)
next
  case False
  then have nn: "0 \<le> i" by simp
  obtain c cs where cs: "dec_digits i = c # cs"
    using dec_digits_not_Nil [of i] by (cases "dec_digits i") auto
  then have "c \<in> set (dec_digits i)" by simp
  with nn have "is_digit c" by (rule dec_digits_is_digit)
  then have "c \<noteq> CHR ''-''" by (auto simp: is_digit_def)
  with False cs nn show ?thesis
    using parse_dec_dec_digits [of i] by (simp add: format_int_def parse_int_def)
qed

section \<open>The two format strings of \<open>dot2d\<close>\<close>

lemma fmt_format_log_message:
  "fmt_format ''Computed 2D dot product: {}'' [a] =
     Inr (''Computed 2D dot product: '' @ format_arg a)"
  by simp

lemma fmt_format_return_string:
  "fmt_format (''({},{})'' @ [CHR 0xC2, CHR 0xB7] @ ''({},{}) = {}'') [a, b, c, d, e] =
     Inr (''('' @ format_arg a @ '','' @ format_arg b @ '')'' @ [CHR 0xC2, CHR 0xB7] @
          ''('' @ format_arg c @ '','' @ format_arg d @ '') = '' @ format_arg e)"
  by simp

text \<open>What a call returns and what it does to the logger, for every input.\<close>

lemma dot2d_unfold:
  "dot2d x1 y1 x2 y2 lg =
     (Inr (rendered x1 y1 x2 y2 (dot2d_result x1 y1 x2 y2)),
      if should_log lg Info
      then lg\<lparr>sink := sink lg @
             [''Computed 2D dot product: '' @ format_int (sint (dot2d_result x1 y1 x2 y2))]\<rparr>
      else lg)"
  unfolding dot2d_def Let_def spdlog_info_def fmt_format_log_message fmt_format_return_string
  by (simp add: rendered_def)

lemma after_marker_log_message:
  "after_marker (CHR '':'') (''Computed 2D dot product: '' @ format_int i) =
     CHR '' '' # format_int i"
  by (simp add: after_marker_def)

lemma dropWhile_format_int:
  "dropWhile (\<lambda>c. c \<noteq> CHR ''='') (format_int i @ ys) = dropWhile (\<lambda>c. c \<noteq> CHR ''='') ys"
  by (rule dropWhile_append2) (simp add: format_int_no_marker)

lemma after_marker_rendered:
  "after_marker (CHR ''='') (rendered x1 y1 x2 y2 r) = CHR '' '' # format_int (sint r)"
  by (simp add: after_marker_def rendered_def dropWhile_format_int)

lemma length_rendered: "length (rendered x1 y1 x2 y2 r) \<le> 66"
proof -
  have "length (format_int (sint w)) \<le> 11" for w :: int32
    using length_format_arg [of "ArgInt w"] by simp
  from this [of x1] this [of y1] this [of x2] this [of y2] this [of r]
  show ?thesis by (simp add: rendered_def)
qed

section \<open>The claims\<close>

subsection \<open>C1: the value of \<open>result\<close>\<close>

text \<open>
  C1, as stated, takes \<open>result\<close> to be the dot product of the two vectors for every
  input. It is not: the dot product of \<open>(46341, 0)\<close> with itself is \<open>2147488281\<close>,
  and \<open>result\<close> is \<open>-2147479015\<close>.
\<close>

theorem dot2d_result_not_exact_dot:
  "sint (dot2d_result 46341 0 46341 0) = - 2147479015 \<and>
   sint (dot2d_result 46341 0 46341 0) \<noteq>
     sint (46341 :: int32) * sint (46341 :: int32) + sint (0 :: int32) * sint (0 :: int32)"
  by (simp add: dot2d_result_def)

text \<open>
  C1 (amended): for every four \<^verbatim>\<open>int\<close> inputs, the value \<open>result\<close> that \<open>dot2d\<close>
  computes is the dot product \<open>x1 * x2 + y1 * y2\<close> in 32-bit \<^verbatim>\<open>int\<close> arithmetic: the
  dot product of the vectors over the integers, reduced modulo \<open>2 ^ 32\<close> into the
  signed range from \<open>- 2 ^ 31\<close> up to \<open>2 ^ 31 - 1\<close>.
\<close>

theorem dot2d_result_wraps:
  "sint (dot2d_result x1 y1 x2 y2) =
     (sint x1 * sint x2 + sint y1 * sint y2 + 2 ^ 31) mod 2 ^ 32 - 2 ^ 31"
  using sint_dot2d_result [of x1 y1 x2 y2] by (simp add: wrap_int32_def exact_dot_def)

subsection \<open>C2: the returned string\<close>

text \<open>
  C2: for every four \<^verbatim>\<open>int\<close> inputs (and every state of the logger), \<open>dot2d\<close> returns
  exactly the string \<^verbatim>\<open>({x1},{y1})\xC2\xB7({x2},{y2}) = {r}\<close>, where each placeholder is
  the decimal rendering of the argument and \<open>r\<close> that of the computed value
  \<open>x1 * x2 + y1 * y2\<close> (32-bit arithmetic, as computed).
\<close>

theorem dot2d_returns_rendered_string:
  "fst (dot2d x1 y1 x2 y2 lg) =
     Inr (''('' @ format_int (sint x1) @ '','' @ format_int (sint y1) @ '')'' @
          [CHR 0xC2, CHR 0xB7] @
          ''('' @ format_int (sint x2) @ '','' @ format_int (sint y2) @ '') = '' @
          format_int (sint (x1 * x2 + y1 * y2)))"
  by (simp add: dot2d_unfold rendered_def dot2d_result_def)

subsection \<open>C3: determinism\<close>

text \<open>
  C3: \<open>dot2d\<close> keeps no state of its own, and what it returns depends on its four
  arguments only: two calls with the same arguments return the same string, whatever the
  state of the logger at either call (so also when the second call follows the first).
\<close>

theorem dot2d_independent_of_logger:
  "fst (dot2d x1 y1 x2 y2 lg) = fst (dot2d x1 y1 x2 y2 lg')"
  by (simp add: dot2d_unfold)

subsection \<open>C4: no failure path\<close>

text \<open>
  C4: for every four \<^verbatim>\<open>int\<close> inputs and every state of the logger, \<open>dot2d\<close> returns a
  string: the error branches of the formatting library are not reached from the format
  string and the five arguments \<open>dot2d\<close> passes.
\<close>

theorem dot2d_no_failure: "\<exists>s. fst (dot2d x1 y1 x2 y2 lg) = Inr s"
  by (simp add: dot2d_unfold)

subsection \<open>C5: symmetry\<close>

text \<open>
  C5: the value computed is symmetric in the two vectors: \<open>result\<close> is the same for
  \<open>dot2d(x1, y1, x2, y2)\<close> and \<open>dot2d(x2, y2, x1, y1)\<close>, and the two returned strings
  agree in what follows \<open>=\<close>.
\<close>

theorem dot2d_result_symmetric:
  "dot2d_result x1 y1 x2 y2 = dot2d_result x2 y2 x1 y1 \<and>
   (\<exists>s t. fst (dot2d x1 y1 x2 y2 lg) = Inr s \<and> fst (dot2d x2 y2 x1 y1 lg') = Inr t \<and>
      after_marker (CHR ''='') s = after_marker (CHR ''='') t)"
proof
  show sym: "dot2d_result x1 y1 x2 y2 = dot2d_result x2 y2 x1 y1"
    by (simp add: dot2d_result_def mult.commute)
  have "after_marker (CHR ''='') (rendered x1 y1 x2 y2 (dot2d_result x1 y1 x2 y2)) =
        after_marker (CHR ''='') (rendered x2 y2 x1 y1 (dot2d_result x2 y2 x1 y1))"
    by (simp only: after_marker_rendered sym)
  then show "\<exists>s t. fst (dot2d x1 y1 x2 y2 lg) = Inr s \<and> fst (dot2d x2 y2 x1 y1 lg') = Inr t \<and>
      after_marker (CHR ''='') s = after_marker (CHR ''='') t"
    by (simp add: dot2d_unfold)
qed

subsection \<open>C6: 32-bit arithmetic\<close>

text \<open>
  C6, as stated, says that outside the range (a product or the sum not a signed 32-bit
  value) the wrapped computation does not match the dot product over the integers. It can:
  with \<open>(65536, 65536)\<close> and \<open>(65536, -65536)\<close> both products are outside the range,
  they cancel, and \<open>result\<close> is the exact dot product, \<open>0\<close>.
\<close>

theorem dot2d_overflow_can_cancel:
  "\<not> in_int32_range (sint (65536 :: int32) * sint (65536 :: int32)) \<and>
   \<not> in_int32_range (sint (65536 :: int32) * sint (- 65536 :: int32)) \<and>
   sint (dot2d_result 65536 65536 65536 (- 65536)) =
     sint (65536 :: int32) * sint (65536 :: int32) +
     sint (65536 :: int32) * sint (- 65536 :: int32)"
  by (simp add: dot2d_result_def in_int32_range_def)

text \<open>
  C6 (amended): the arithmetic in \<open>dot2d\<close> is 32-bit \<^verbatim>\<open>int\<close> arithmetic. For every
  four inputs such that \<open>x1 * x2\<close>, \<open>y1 * y2\<close> and their sum each lie within the signed
  32-bit range, \<open>result\<close> is the exact dot product. For every input it differs from the
  exact dot product by a multiple of \<open>2 ^ 32\<close>, and it is the exact dot product exactly
  when that sum lies within the signed 32-bit range.
\<close>

theorem dot2d_result_int32_arithmetic:
  "(in_int32_range (sint x1 * sint x2) \<and> in_int32_range (sint y1 * sint y2) \<and>
    in_int32_range (sint x1 * sint x2 + sint y1 * sint y2) \<longrightarrow>
      sint (dot2d_result x1 y1 x2 y2) = sint x1 * sint x2 + sint y1 * sint y2) \<and>
   (\<exists>q. sint (dot2d_result x1 y1 x2 y2) = sint x1 * sint x2 + sint y1 * sint y2 + q * 2 ^ 32) \<and>
   (sint (dot2d_result x1 y1 x2 y2) = sint x1 * sint x2 + sint y1 * sint y2 \<longleftrightarrow>
      in_int32_range (sint x1 * sint x2 + sint y1 * sint y2))"
proof -
  let ?e = "sint x1 * sint x2 + sint y1 * sint y2"
  have r: "sint (dot2d_result x1 y1 x2 y2) = wrap_int32 ?e"
    by (simp add: sint_dot2d_result exact_dot_def)
  have iff: "sint (dot2d_result x1 y1 x2 y2) = ?e \<longleftrightarrow> in_int32_range ?e"
    by (simp only: r wrap_int32_id_iff)
  have cong: "\<exists>q. sint (dot2d_result x1 y1 x2 y2) = ?e + q * 2 ^ 32"
    unfolding r by (rule wrap_int32_cong)
  from iff cong show ?thesis by blast
qed

theorem dot2d_result_int32_arithmetic_witness:
  "in_int32_range (sint (3 :: int32) * sint (5 :: int32)) \<and>
   in_int32_range (sint (4 :: int32) * sint (6 :: int32)) \<and>
   in_int32_range (sint (3 :: int32) * sint (5 :: int32) + sint (4 :: int32) * sint (6 :: int32)) \<and>
   sint (dot2d_result 3 4 5 6) = 39"
proof -
  have h: "in_int32_range (sint (3 :: int32) * sint (5 :: int32)) \<and>
     in_int32_range (sint (4 :: int32) * sint (6 :: int32)) \<and>
     in_int32_range (sint (3 :: int32) * sint (5 :: int32) + sint (4 :: int32) * sint (6 :: int32))"
    by (simp add: in_int32_range_def)
  from dot2d_result_int32_arithmetic [of 3 5 4 6] h
  have "sint (dot2d_result 3 4 5 6) =
      sint (3 :: int32) * sint (5 :: int32) + sint (4 :: int32) * sint (6 :: int32)"
    by blast
  with h show ?thesis by simp
qed

subsection \<open>C7: the logged value is the returned value\<close>

text \<open>
  C7: when the logger admits \<^verbatim>\<open>info\<close>, a call hands the sink one message, and the
  number in it (what follows \<open>:\<close>) is the number in the returned string (what follows
  \<open>=\<close>): both are the decimal rendering of \<open>result\<close>.
\<close>

theorem dot2d_logs_returned_value:
  assumes "should_log lg Info"
  shows "\<exists>msg s. dot2d x1 y1 x2 y2 lg = (Inr s, lg\<lparr>sink := sink lg @ [msg]\<rparr>) \<and>
     after_marker (CHR '':'') msg = CHR '' '' # format_int (sint (dot2d_result x1 y1 x2 y2)) \<and>
     after_marker (CHR ''='') s = CHR '' '' # format_int (sint (dot2d_result x1 y1 x2 y2))"
proof -
  let ?r = "dot2d_result x1 y1 x2 y2"
  let ?msg = "''Computed 2D dot product: '' @ format_int (sint ?r)"
  let ?s = "rendered x1 y1 x2 y2 ?r"
  from assms have "dot2d x1 y1 x2 y2 lg = (Inr ?s, lg\<lparr>sink := sink lg @ [?msg]\<rparr>)"
    by (simp only: dot2d_unfold if_True)
  moreover have "after_marker (CHR '':'') ?msg = CHR '' '' # format_int (sint ?r)"
    by (rule after_marker_log_message)
  moreover have "after_marker (CHR ''='') ?s = CHR '' '' # format_int (sint ?r)"
    by (rule after_marker_rendered)
  ultimately show ?thesis by blast
qed

theorem dot2d_logs_returned_value_witness:
  "should_log \<lparr>log_level = Info, sink = []\<rparr> Info \<and>
   (\<exists>msg s. dot2d 1 (- 2) 3 4 \<lparr>log_level = Info, sink = []\<rparr> =
        (Inr s, \<lparr>log_level = Info, sink = [msg]\<rparr>) \<and>
      after_marker (CHR '':'') msg = '' -5'' \<and> after_marker (CHR ''='') s = '' -5'')"
proof -
  have h: "should_log \<lparr>log_level = Info, sink = []\<rparr> Info"
    by (simp add: should_log_def)
  have v: "format_int (sint (dot2d_result 1 (- 2) 3 4)) = ''-5''"
    by (simp add: dot2d_result_def format_int_def dec_digits.simps digit_char_def char_of_def)
  from dot2d_logs_returned_value [OF h, of 1 "- 2" 3 4] v h show ?thesis
    by simp
qed

subsection \<open>C8: termination\<close>

lemma length_format_int_pos: "1 \<le> length (format_int i)"
  using dec_digits_not_Nil [of i] dec_digits_not_Nil [of "- i"]
  by (cases "dec_digits i"; cases "dec_digits (- i)") (simp_all add: format_int_def)

lemma length_rendered_lower: "16 \<le> length (rendered x1 y1 x2 y2 r)"
proof -
  have "1 \<le> length (format_int (sint w))" for w :: int32
    by (rule length_format_int_pos)
  from this [of x1] this [of y1] this [of x2] this [of y2] this [of r]
  show ?thesis by (simp add: rendered_def)
qed

text \<open>
  C8: \<open>dot2d\<close> terminates for every four \<^verbatim>\<open>int\<close> inputs and every state of
  the logger, after one arithmetic expression, one logging call and one formatting call.
  The formatting of the log message returns a message \<open>msg\<close> of 26 to 36 bytes, the
  formatting call returns a string \<open>s\<close> of 16 to 66 bytes, and the call of \<open>dot2d\<close>
  returns \<open>s\<close> with the logger's sink extended by exactly the one message \<open>msg\<close>
  when the logger admits \<^verbatim>\<open>info\<close>, and with the logger unchanged otherwise.
\<close>

theorem dot2d_terminates:
  "\<exists>s msg.
     fmt_format ''Computed 2D dot product: {}'' [ArgInt (dot2d_result x1 y1 x2 y2)] = Inr msg \<and>
     fmt_format (''({},{})'' @ [CHR 0xC2, CHR 0xB7] @ ''({},{}) = {}'')
       [ArgInt x1, ArgInt y1, ArgInt x2, ArgInt y2, ArgInt (dot2d_result x1 y1 x2 y2)] = Inr s \<and>
     dot2d x1 y1 x2 y2 lg =
       (Inr s, if should_log lg Info then lg\<lparr>sink := sink lg @ [msg]\<rparr> else lg) \<and>
     16 \<le> length s \<and> length s \<le> 66 \<and> 26 \<le> length msg \<and> length msg \<le> 36"
proof -
  let ?r = "dot2d_result x1 y1 x2 y2"
  let ?msg = "''Computed 2D dot product: '' @ format_int (sint ?r)"
  let ?s = "rendered x1 y1 x2 y2 ?r"
  have "fmt_format ''Computed 2D dot product: {}'' [ArgInt ?r] = Inr ?msg"
    by (simp only: fmt_format_log_message format_arg.simps)
  moreover have "fmt_format (''({},{})'' @ [CHR 0xC2, CHR 0xB7] @ ''({},{}) = {}'')
       [ArgInt x1, ArgInt y1, ArgInt x2, ArgInt y2, ArgInt ?r] = Inr ?s"
    by (simp only: fmt_format_return_string format_arg.simps rendered_def)
  moreover have "dot2d x1 y1 x2 y2 lg =
       (Inr ?s, if should_log lg Info then lg\<lparr>sink := sink lg @ [?msg]\<rparr> else lg)"
    by (rule dot2d_unfold)
  moreover have "16 \<le> length ?s" by (rule length_rendered_lower)
  moreover have "length ?s \<le> 66" by (rule length_rendered)
  moreover have "26 \<le> length ?msg" using length_format_int_pos [of "sint ?r"] by simp
  moreover have "length ?msg \<le> 36" using length_format_arg [of "ArgInt ?r"] by simp
  ultimately show ?thesis by blast
qed

theorem dot2d_terminates_witness:
  "dot2d 3 4 5 6 \<lparr>log_level = Info, sink = [''up'']\<rparr> =
     (Inr (''(3,4)'' @ [CHR 0xC2, CHR 0xB7] @ ''(5,6) = 39''),
      \<lparr>log_level = Info, sink = [''up'', ''Computed 2D dot product: 39'']\<rparr>) \<and>
   dot2d 3 4 5 6 \<lparr>log_level = Warn, sink = [''up'']\<rparr> =
     (Inr (''(3,4)'' @ [CHR 0xC2, CHR 0xB7] @ ''(5,6) = 39''),
      \<lparr>log_level = Warn, sink = [''up'']\<rparr>)"
proof -
  have ev: "format_int 3 = ''3''" "format_int 4 = ''4''" "format_int 5 = ''5''"
    "format_int 6 = ''6''" "format_int 39 = ''39''"
    by (simp_all add: format_int_def dec_digits.simps digit_char_def char_of_def)
  have r: "dot2d_result 3 4 5 6 = 39" by (simp add: dot2d_result_def)
  have a: "should_log \<lparr>log_level = Info, sink = [''up'']\<rparr> Info"
    and b: "\<not> should_log \<lparr>log_level = Warn, sink = [''up'']\<rparr> Info"
    by (simp_all add: should_log_def)
  from dot2d_terminates [of 3 4 5 6 "\<lparr>log_level = Info, sink = [''up'']\<rparr>"]
  have 1: "dot2d 3 4 5 6 \<lparr>log_level = Info, sink = [''up'']\<rparr> =
     (Inr (''(3,4)'' @ [CHR 0xC2, CHR 0xB7] @ ''(5,6) = 39''),
      \<lparr>log_level = Info, sink = [''up'', ''Computed 2D dot product: 39'']\<rparr>)"
    using a by (auto simp: r ev)
  from dot2d_terminates [of 3 4 5 6 "\<lparr>log_level = Warn, sink = [''up'']\<rparr>"]
  have 2: "dot2d 3 4 5 6 \<lparr>log_level = Warn, sink = [''up'']\<rparr> =
     (Inr (''(3,4)'' @ [CHR 0xC2, CHR 0xB7] @ ''(5,6) = 39''),
      \<lparr>log_level = Warn, sink = [''up'']\<rparr>)"
    using b by (auto simp: r ev)
  from 1 2 show ?thesis by (rule conjI)
qed

end
